theory Spec2Isabelle
  imports Main
begin

section \<open>Text operations of the session parser\<close>

text \<open>
  The program handles Python \<open>str\<close> values; they are modelled as \<open>string\<close>. The
  character classes below are the ones of \<open>str.isspace\<close>, \<open>str.splitlines\<close> and
  \<open>str.isdigit\<close> on ASCII; every other character is an ordinary one.
\<close>

definition isspace :: "char \<Rightarrow> bool" where
  "isspace c = (c \<in> set [CHR 0x09, CHR 0x0A, CHR 0x0B, CHR 0x0C, CHR 0x0D,
                          CHR 0x1C, CHR 0x1D, CHR 0x1E, CHR 0x1F, CHR 0x20])"

definition is_linebreak :: "char \<Rightarrow> bool" where
  "is_linebreak c = (c \<in> set [CHR 0x0A, CHR 0x0B, CHR 0x0C, CHR 0x0D,
                               CHR 0x1C, CHR 0x1D, CHR 0x1E])"

definition is_digit :: "char \<Rightarrow> bool" where
  "is_digit c = (c \<in> set ''0123456789'')"

text \<open>\<open>s.isdigit()\<close>: at least one character, all of them digits.\<close>

definition isdigit :: "string \<Rightarrow> bool" where
  "isdigit s = (s \<noteq> [] \<and> list_all is_digit s)"

text \<open>\<open>s.strip()\<close>\<close>

definition strip :: "string \<Rightarrow> string" where
  "strip s = rev (dropWhile isspace (rev (dropWhile isspace s)))"

text \<open>\<open>needle in hay\<close>\<close>

fun contains :: "string \<Rightarrow> string \<Rightarrow> bool" where
  "contains needle [] = (needle = [])"
| "contains needle (c # cs) = (take (length needle) (c # cs) = needle \<or> contains needle cs)"

text \<open>
  \<open>s.splitlines()\<close>: the text is cut at every line boundary, a carriage return followed
  by a line feed counting as one boundary; no empty last line is produced. The flag
  says that the previous character was a carriage return, the second argument is the
  current line, reversed.
\<close>

fun splitlines_from :: "bool \<Rightarrow> string \<Rightarrow> string \<Rightarrow> string list" where
  "splitlines_from after_cr cur [] = (if cur = [] then [] else [rev cur])"
| "splitlines_from after_cr cur (c # cs) =
     (if after_cr \<and> c = CHR 0x0A then splitlines_from False cur cs
      else if is_linebreak c then rev cur # splitlines_from (c = CHR 0x0D) [] cs
      else splitlines_from False (c # cur) cs)"

definition splitlines :: "string \<Rightarrow> string list" where
  "splitlines s = splitlines_from False [] s"

text \<open>\<open>s.split()\<close>: the maximal runs of characters that are not whitespace.\<close>

fun split_from :: "string \<Rightarrow> string \<Rightarrow> string list" where
  "split_from cur [] = (if cur = [] then [] else [rev cur])"
| "split_from cur (c # cs) =
     (if isspace c then (if cur = [] then split_from [] cs else rev cur # split_from [] cs)
      else split_from (c # cur) cs)"

definition split :: "string \<Rightarrow> string list" where
  "split s = split_from [] s"

section \<open>Sessions reported by a server\<close>

record session =
  Username :: string
  SessionId :: string
  State :: string
  LogonTime :: string

text \<open>
  What \<open>subprocess.run(['quser', '/server:...'], timeout=30, encoding='ibm866')\<close> gives:
  it raises \<open>TimeoutExpired\<close>, raises another exception (the command is missing, the
  output does not decode), or returns the exit code with the two output texts.
\<close>

datatype run_result =
    TimeoutExpired
  | OtherException
  | CompletedProcess (returncode: int) (stdout: string) (stderr: string)

text \<open>The body of the loop over the lines: the session that the line appends, if any.\<close>

definition parse_line :: "string \<Rightarrow> session option" where
  "parse_line line =
     (let parts = split line in
      if length parts \<ge> 5 then
        (let username = parts ! 0;
             session_id = parts ! 2;
             state = parts ! 3;
             logon_time = parts ! (length parts - 2) @ '' '' @ parts ! (length parts - 1)
         in if \<not> isdigit session_id then None
            else if username = ''admin'' then None
            else Some \<lparr>Username = username, SessionId = session_id,
                       State = state, LogonTime = logon_time\<rparr>)
      else None)"

definition get_active_sessions :: "run_result \<Rightarrow> session list" where
  "get_active_sessions r =
     (case r of
        TimeoutExpired \<Rightarrow> []
      | OtherException \<Rightarrow> []
      | CompletedProcess rc out err \<Rightarrow>
          if rc \<noteq> 0 then []
          else (let output = strip out in
                if contains ''No users exist for *'' output then []
                else List.map_filter parse_line (drop 1 (splitlines output))))"

section \<open>Timestamps\<close>

record datetime =
  year :: int
  month :: int
  day :: int
  hour :: int
  minute :: int
  second :: int
  microsecond :: int

definition is_leap :: "int \<Rightarrow> bool" where
  "is_leap y = (y mod 4 = 0 \<and> (y mod 100 \<noteq> 0 \<or> y mod 400 = 0))"

definition days_in_month :: "int \<Rightarrow> int \<Rightarrow> int" where
  "days_in_month y m =
     (if m = 2 \<and> is_leap y then 29
      else [0, 31, 28, 31, 30, 31, 30, 31, 31, 30, 31, 30, 31] ! nat m)"

definition days_before_year :: "int \<Rightarrow> int" where
  "days_before_year y = (y - 1) * 365 + (y - 1) div 4 - (y - 1) div 100 + (y - 1) div 400"

definition days_before_month :: "int \<Rightarrow> int \<Rightarrow> int" where
  "days_before_month y m =
     [0, 0, 31, 59, 90, 120, 151, 181, 212, 243, 273, 304, 334] ! nat m
       + (if m > 2 \<and> is_leap y then 1 else 0)"

definition toordinal :: "datetime \<Rightarrow> int" where
  "toordinal t = days_before_year (year t) + days_before_month (year t) (month t) + day t"

text \<open>Microseconds since the start of day 0 of the proleptic calendar.\<close>

definition to_microseconds :: "datetime \<Rightarrow> int" where
  "to_microseconds t =
     (((toordinal t * 24 + hour t) * 60 + minute t) * 60 + second t) * 1000000
        + microsecond t"

definition digits_value :: "string \<Rightarrow> int" where
  "digits_value s = foldl (\<lambda>n c. 10 * n + (of_char c - 48)) 0 s"

text \<open>
  A field of \<open>strptime\<close> that takes one or two digits and a value between two bounds:
  \<open>%m\<close> is \<open>1[0-2]|0[1-9]|[1-9]\<close>, \<open>%H\<close> is \<open>2[0-3]|[0-1]\d|\d\<close>,
  \<open>%M\<close> is \<open>[0-5]\d|\d\<close>.
\<close>

definition field :: "int \<Rightarrow> int \<Rightarrow> string \<Rightarrow> int option" where
  "field lo hi s =
     (if (length s = 1 \<or> length s = 2) \<and> list_all is_digit s
         \<and> lo \<le> digits_value s \<and> digits_value s \<le> hi
      then Some (digits_value s) else None)"

text \<open>\<open>%d\<close> is \<open>3[0-1]|[1-2]\d|0[1-9]|[1-9]| [1-9]\<close>: a space may stand for the first digit.\<close>

definition day_field :: "string \<Rightarrow> int option" where
  "day_field s =
     (case s of
        [c, d] \<Rightarrow> if c = CHR '' '' then field 1 9 [d] else field 1 31 s
      | _ \<Rightarrow> field 1 31 s)"

text \<open>\<open>%Y\<close> is \<open>\d\d\d\d\<close>.\<close>

definition year_field :: "string \<Rightarrow> int option" where
  "year_field s =
     (if length s = 4 \<and> list_all is_digit s then Some (digits_value s) else None)"

text \<open>
  \<open>datetime.strptime(s, "%d.%m.%Y %H:%M")\<close>. \<open>None\<close> stands for the \<open>ValueError\<close>
  it raises: the text does not match the format, text remains after the minutes, the
  year is 0, or the month has no such day. The blank of the format matches one or more
  whitespace characters.
\<close>

definition strptime :: "string \<Rightarrow> datetime option" where
  "strptime s =
     (let d_str = takeWhile (\<lambda>c. c \<noteq> CHR ''.'') s;
          rest1 = dropWhile (\<lambda>c. c \<noteq> CHR ''.'') s;
          m_str = takeWhile (\<lambda>c. c \<noteq> CHR ''.'') (drop 1 rest1);
          rest2 = dropWhile (\<lambda>c. c \<noteq> CHR ''.'') (drop 1 rest1);
          y_str = take 4 (drop 1 rest2);
          rest3 = drop 4 (drop 1 rest2);
          rest4 = dropWhile isspace rest3;
          h_str = takeWhile (\<lambda>c. c \<noteq> CHR '':'') rest4;
          rest5 = dropWhile (\<lambda>c. c \<noteq> CHR '':'') rest4;
          mi_str = drop 1 rest5
      in if rest1 = [] \<or> rest2 = [] \<or> rest5 = [] \<or> takeWhile isspace rest3 = [] then None
         else
           (case (day_field d_str, field 1 12 m_str, year_field y_str,
                  field 0 23 h_str, field 0 59 mi_str) of
              (Some d, Some m, Some y, Some h, Some mi) \<Rightarrow>
                if y < 1 \<or> d > days_in_month y m then None
                else Some \<lparr>year = y, month = m, day = d, hour = h, minute = mi,
                           second = 0, microsecond = 0\<rparr>
            | _ \<Rightarrow> None))"

text \<open>
  \<open>round(x)\<close> of Python 3 on the quotient \<open>n / d\<close> (\<open>d > 0\<close>): to the nearest integer,
  a tie going to the even one. The quotient is taken exactly here; the program computes
  it in double precision, which gives the same integer as long as the two times are
  less than 140 years apart.
\<close>

definition round_half_even :: "int \<Rightarrow> int \<Rightarrow> int" where
  "round_half_even n d =
     (let q = n div d; r = n mod d
      in if 2 * r < d then q
         else if 2 * r > d then q + 1
         else if even q then q else q + 1)"

text \<open>\<open>round((current_time - logon_time).total_seconds() / 60)\<close>\<close>

definition session_duration :: "datetime \<Rightarrow> datetime \<Rightarrow> int" where
  "session_duration current_time logon_time =
     round_half_even (to_microseconds current_time - to_microseconds logon_time) 60000000"

section \<open>The database\<close>

text \<open>
  Table \<open>Users\<close> maps a user name (its primary key) to \<open>TotalMinutes\<close>. Table
  \<open>ActiveSessions\<close> is read as a whole, so it is the list of its rows
  \<open>(SessionId, Username, LogonTime)\<close> in the order of insertion.
\<close>

type_synonym row = "string \<times> string \<times> string"

record database =
  Users :: "string \<rightharpoonup> int"
  ActiveSessions :: "row list"

text \<open>
  A connection of \<open>check_completed_sessions\<close>: the rows of \<open>ActiveSessions\<close> as the
  connection sees them, its own changes included, and whether it has an open
  transaction (\<open>conn.in_transaction\<close>). The module \<open>sqlite3\<close> opens a transaction
  before the first \<open>DELETE\<close> or \<open>INSERT\<close> of a connection; \<open>commit\<close> writes the
  changes to the file and \<open>rollback\<close> drops them.

  SQLite admits one writer per file. While a connection has an open transaction with a
  change in it, a writing statement of another connection waits for the busy timeout
  (5 seconds, the default of \<open>sqlite3.connect\<close>) and then raises
  \<open>sqlite3.OperationalError\<close> (database is locked). The program has one thread, so
  nothing commits during that wait.

  This is the one \<open>sqlite3.Error\<close> of the model; a failure of the disk or of the file
  is not part of it. \<open>initialize_database\<close> creates the two tables when they are
  missing, so the statements below start from any content of the two tables.
\<close>

record connection =
  rows :: "row list"
  in_transaction :: bool

datatype py_exception = ValueError

text \<open>The lines that the reconciliation writes to the log.\<close>

datatype log_event =
    SessionCompleted string string int
  | NewSessionAdded string string string
  | UserUpdated string int
  | UpdateFailed string
  | ErrorOccurred

text \<open>
  \<open>update_user_time\<close> opens a connection of its own. The first argument says whether
  another connection holds the write lock of the file at that moment; the
  \<open>sqlite3.Error\<close> is caught and logged, the table stays as it is.
\<close>

definition update_user_time ::
  "bool \<Rightarrow> string \<Rightarrow> int \<Rightarrow> database \<Rightarrow> database \<times> log_event list" where
  "update_user_time locked username duration f =
     (if username = ''admin'' then (f, [])
      else if locked then (f, [UpdateFailed username])
      else (f\<lparr>Users := (Users f)(username \<mapsto>
                 (case Users f username of None \<Rightarrow> 0 | Some t \<Rightarrow> t) + duration)\<rparr>,
            [UserUpdated username duration]))"

text \<open>
  The loop over the stored rows (lines 152 to 161). Its state is the connection, the
  list \<open>completed_sessions\<close> and the log. A timestamp that does not parse raises
  \<open>ValueError\<close> and ends the loop there.
\<close>

type_synonym scan = "connection \<times> (string \<times> int) list \<times> log_event list"

fun completed_loop ::
  "string list \<Rightarrow> datetime \<Rightarrow> row list \<Rightarrow> scan \<Rightarrow> py_exception option \<times> scan" where
  "completed_loop ids current_time [] st = (None, st)"
| "completed_loop ids current_time ((session_id, username, logon_time_str) # rs)
       (conn, completed_sessions, lg) =
     (if session_id \<notin> set ids then
        (case strptime logon_time_str of
           None \<Rightarrow> (Some ValueError, (conn, completed_sessions, lg))
         | Some logon_time \<Rightarrow>
             (let d = session_duration current_time logon_time
              in completed_loop ids current_time rs
                   (\<lparr>rows = filter (\<lambda>r. fst r \<noteq> session_id) (rows conn),
                     in_transaction = True\<rparr>,
                    completed_sessions @ [(username, d)],
                    lg @ [SessionCompleted username session_id d])))
      else completed_loop ids current_time rs (conn, completed_sessions, lg))"

text \<open>The loop over \<open>completed_sessions\<close> (lines 164 to 167).\<close>

fun update_loop ::
  "bool \<Rightarrow> (string \<times> int) list \<Rightarrow> database \<times> log_event list \<Rightarrow> database \<times> log_event list" where
  "update_loop locked [] st = st"
| "update_loop locked ((username, duration) # cs) (f, lg) =
     (let (f', evs) = update_user_time locked username duration f
      in update_loop locked cs (f', lg @ evs))"

text \<open>The loop over the observed sessions (lines 172 to 183).\<close>

fun add_loop :: "session list \<Rightarrow> connection \<times> log_event list \<Rightarrow> connection \<times> log_event list" where
  "add_loop [] st = st"
| "add_loop (s # ss) (conn, lg) =
     (if SessionId s \<in> fst ` set (rows conn) then add_loop ss (conn, lg)
      else add_loop ss
             (\<lparr>rows = rows conn @ [(SessionId s, Username s, LogonTime s)],
               in_transaction = True\<rparr>,
              lg @ [NewSessionAdded (Username s) (SessionId s) (LogonTime s)]))"

text \<open>
  \<open>check_completed_sessions\<close>, for the observed sessions, the value of
  \<open>datetime.now()\<close> and the file. When \<open>ValueError\<close> leaves the \<open>with\<close> block the
  connection rolls back, and the exception goes on to the caller (only \<open>sqlite3.Error\<close>
  is caught here). Otherwise the connection commits its rows.
\<close>

definition check_completed_sessions ::
  "session list \<Rightarrow> datetime \<Rightarrow> database \<Rightarrow> py_exception option \<times> database \<times> log_event list" where
  "check_completed_sessions active_sessions current_time f =
     (let db_sessions = ActiveSessions f;
          active_session_ids = map SessionId active_sessions
      in case completed_loop active_session_ids current_time db_sessions
                (\<lparr>rows = db_sessions, in_transaction = False\<rparr>, [], []) of
           (Some e, (conn, completed_sessions, lg)) \<Rightarrow> (Some e, f, lg)
         | (None, (conn, completed_sessions, lg)) \<Rightarrow>
             (let (f', lg') = update_loop (in_transaction conn) completed_sessions (f, lg);
                  (conn', lg'') = add_loop active_sessions (conn, lg')
              in (None, f'\<lparr>ActiveSessions := rows conn'\<rparr>, lg'')))"



section \<open>The polling loop\<close>

definition SERVERS :: "string list" where
  "SERVERS = [''server1'', ''server2'', ''server3'']"

text \<open>
  One cycle of \<open>main\<close>: what \<open>quser\<close> gives for each server, and the clock when the
  reconciliation starts.
\<close>

type_synonym cycle_input = "(string \<Rightarrow> run_result) \<times> datetime"

definition all_active_sessions :: "(string \<Rightarrow> run_result) \<Rightarrow> session list" where
  "all_active_sessions fetch = concat (map (\<lambda>server. get_active_sessions (fetch server)) SERVERS)"

definition cycle :: "cycle_input \<Rightarrow> database \<Rightarrow> py_exception option \<times> database \<times> log_event list" where
  "cycle i f = check_completed_sessions (all_active_sessions (fst i)) (snd i) f"

text \<open>
  The loop of \<open>main\<close> over the cycles that the list describes. An exception of a cycle
  leaves the loop: it is logged and \<open>main\<close> returns, no later cycle runs. \<open>None\<close> says
  that the loop is still running after the last cycle of the list. The sleep between
  two cycles and an interrupt from the keyboard are not part of the model.
\<close>

fun main_loop ::
  "cycle_input list \<Rightarrow> database \<times> log_event list \<Rightarrow> py_exception option \<times> database \<times> log_event list" where
  "main_loop [] (f, lg) = (None, f, lg)"
| "main_loop (i # rest) (f, lg) =
     (case cycle i f of
        (Some e, f', evs) \<Rightarrow> (Some e, f', lg @ evs @ [ErrorOccurred])
      | (None, f', evs) \<Rightarrow> main_loop rest (f', lg @ evs))"

section \<open>Notions used in the statements\<close>

text \<open>The log line of the close-out of the session with the given id.\<close>

fun closed_for :: "string \<Rightarrow> log_event \<Rightarrow> bool" where
  "closed_for sid (SessionCompleted u s d) = (s = sid)"
| "closed_for sid _ = False"

text \<open>
  The connection after the loop over the stored rows, when no exception was raised: the
  rows whose id was observed are left.
\<close>

definition kept :: "session list \<Rightarrow> row list \<Rightarrow> connection" where
  "kept obs rs = \<lparr>rows = filter (\<lambda>r. fst r \<in> SessionId ` set obs) rs, in_transaction = False\<rparr>"

section \<open>Example runs\<close>

text \<open>
  Concrete inputs for the closed statements below: a clock on 1 January 2025, the text
  that \<open>quser\<close> prints for a list of sessions, the answer of a server without users,
  the answers of the three servers of one cycle, and three databases.
\<close>

definition clock :: "int \<Rightarrow> int \<Rightarrow> datetime" where
  "clock h m = \<lparr>year = 2025, month = 1, day = 1, hour = h, minute = m, second = 0, microsecond = 0\<rparr>"

definition quser_line :: "string \<Rightarrow> string \<Rightarrow> string \<Rightarrow> string" where
  "quser_line user sid logon =
     '' '' @ user @ ''   rdp-tcp#'' @ sid @ ''   '' @ sid @ ''  Active      .  '' @ logon"

definition listing :: "string list \<Rightarrow> run_result" where
  "listing lines =
     CompletedProcess 0
       (concat (map (\<lambda>l. l @ [CHR 0x0D, CHR 0x0A])
          ('' USERNAME   SESSIONNAME   ID  STATE   IDLE TIME  LOGON TIME'' # lines))) []"

definition no_users :: run_result where
  "no_users = CompletedProcess 1 [] ''No users exist for *''"

definition hosts :: "run_result \<Rightarrow> run_result \<Rightarrow> run_result \<Rightarrow> string \<Rightarrow> run_result" where
  "hosts r1 r2 r3 = (\<lambda>server. if server = ''server1'' then r1 else if server = ''server2'' then r2 else r3)"

definition empty_db :: database where
  "empty_db = \<lparr>Users = Map.empty, ActiveSessions = []\<rparr>"

definition db_alice :: database where
  "db_alice = \<lparr>Users = Map.empty, ActiveSessions = [(''5'', ''alice'', ''01.01.2025 09:00'')]\<rparr>"


section \<open>The loops of the reconciliation\<close>

lemma completed_loop_raises:
  "fst (completed_loop ids now rs st) = None \<longleftrightarrow>
     (\<forall>r\<in>set rs. fst r \<notin> set ids \<longrightarrow> strptime (snd (snd r)) \<noteq> None)"
  by (induction ids now rs st rule: completed_loop.induct) (auto split: option.splits simp: Let_def)

lemma completed_loop_rows:
  "completed_loop ids now rs (c, done, lg) = (None, (c', done', lg')) \<Longrightarrow>
     rows c' = filter (\<lambda>r. fst r \<in> set ids \<or> fst r \<notin> fst ` set rs) (rows c)"
proof (induction rs arbitrary: c "done" lg)
  case Nil
  then show ?case by simp
next
  case (Cons r rs)
  obtain sid u l where r: "r = (sid, u, l)" by (cases r) auto
  show ?case
  proof (cases "sid \<in> set ids")
    case True
    with Cons r show ?thesis by (auto intro!: filter_cong)
  next
    case False
    with Cons.prems r obtain t where t: "strptime l = Some t"
      by (auto split: option.splits)
    from Cons.prems r False t have
      "rows c' = filter (\<lambda>r. fst r \<in> set ids \<or> fst r \<notin> fst ` set rs)
                   (filter (\<lambda>r. fst r \<noteq> sid) (rows c))"
      by (auto simp: Let_def dest!: Cons.IH)
    with False r show ?thesis by (auto intro!: filter_cong)
  qed
qed

lemma completed_loop_flag:
  "completed_loop ids now rs (c, done, lg) = (None, (c', done', lg')) \<Longrightarrow>
     in_transaction c' = (in_transaction c \<or> (\<exists>r\<in>set rs. fst r \<notin> set ids))"
proof (induction rs arbitrary: c "done" lg)
  case Nil
  then show ?case by simp
next
  case (Cons r rs)
  obtain sid u l where r: "r = (sid, u, l)" by (cases r) auto
  show ?case
  proof (cases "sid \<in> set ids")
    case True
    with Cons.prems r have "completed_loop ids now rs (c, done, lg) = (None, (c', done', lg'))"
      by simp
    from Cons.IH [OF this] True r show ?thesis by simp
  next
    case False
    with Cons.prems r obtain t where t: "strptime l = Some t"
      by (auto split: option.splits)
    from Cons.prems r False t show ?thesis
      by (auto simp: Let_def dest!: Cons.IH)
  qed
qed

lemma completed_loop_done:
  "completed_loop ids now rs (c, done, lg) = (None, (c', done', lg')) \<Longrightarrow>
     done' = done @ map (\<lambda>r. (fst (snd r), session_duration now (the (strptime (snd (snd r))))))
                      (filter (\<lambda>r. fst r \<notin> set ids) rs)"
proof (induction rs arbitrary: c "done" lg)
  case Nil
  then show ?case by simp
next
  case (Cons r rs)
  obtain sid u l where r: "r = (sid, u, l)" by (cases r) auto
  show ?case
  proof (cases "sid \<in> set ids")
    case True
    with Cons r show ?thesis by auto
  next
    case False
    with Cons.prems r obtain t where t: "strptime l = Some t"
      by (auto split: option.splits)
    from Cons.prems r False t show ?thesis
      by (auto simp: Let_def dest!: Cons.IH)
  qed
qed

lemma completed_loop_log:
  "completed_loop ids now rs (c, done, lg) = (None, (c', done', lg')) \<Longrightarrow>
     lg' = lg @ map (\<lambda>r. SessionCompleted (fst (snd r)) (fst r)
                          (session_duration now (the (strptime (snd (snd r))))))
                      (filter (\<lambda>r. fst r \<notin> set ids) rs)"
proof (induction rs arbitrary: c "done" lg)
  case Nil
  then show ?case by simp
next
  case (Cons r rs)
  obtain sid u l where r: "r = (sid, u, l)" by (cases r) auto
  show ?case
  proof (cases "sid \<in> set ids")
    case True
    with Cons r show ?thesis by auto
  next
    case False
    with Cons.prems r obtain t where t: "strptime l = Some t"
      by (auto split: option.splits)
    from Cons.prems r False t show ?thesis
      by (auto simp: Let_def dest!: Cons.IH)
  qed
qed

lemma update_loop_locked: "fst (update_loop True cs (f, lg)) = f"
  by (induction cs arbitrary: lg) (auto simp: update_user_time_def)

lemma add_loop_present:
  "SessionId ` set ss \<subseteq> fst ` set (rows c) \<Longrightarrow> add_loop ss (c, lg) = (c, lg)"
  by (induction ss arbitrary: c lg) auto

lemma add_loop_ids:
  "fst ` set (rows (fst (add_loop ss (c, lg)))) = fst ` set (rows c) \<union> SessionId ` set ss"
  by (induction ss arbitrary: c lg) auto

lemma add_loop_append:
  "\<exists>news. rows (fst (add_loop ss (c, lg))) = rows c @ news
      \<and> set news \<subseteq> (\<lambda>s. (SessionId s, Username s, LogonTime s)) ` set ss"
proof (induction ss arbitrary: c lg)
  case Nil
  then show ?case by simp
next
  case (Cons a ss)
  show ?case
  proof (cases "SessionId a \<in> fst ` set (rows c)")
    case True
    from Cons.IH [of c lg] True show ?thesis by auto
  next
    case False
    let ?c = "\<lparr>rows = rows c @ [(SessionId a, Username a, LogonTime a)], in_transaction = True\<rparr>"
    let ?lg = "lg @ [NewSessionAdded (Username a) (SessionId a) (LogonTime a)]"
    from Cons.IH [of ?c ?lg] obtain news where
      "rows (fst (add_loop ss (?c, ?lg))) = rows ?c @ news"
      "set news \<subseteq> (\<lambda>s. (SessionId s, Username s, LogonTime s)) ` set ss"
      by blast
    with False show ?thesis
      by (intro exI [of _ "(SessionId a, Username a, LogonTime a) # news"]) auto
  qed
qed

lemma add_loop_rows_subset:
  "set (rows (fst (add_loop ss (c, lg))))
     \<subseteq> set (rows c) \<union> (\<lambda>s. (SessionId s, Username s, LogonTime s)) ` set ss"
  using add_loop_append [of ss c lg] by auto

lemma add_loop_stored:
  "sid \<in> fst ` set (rows c) \<Longrightarrow>
     filter (\<lambda>r. fst r = sid) (rows (fst (add_loop ss (c, lg)))) = filter (\<lambda>r. fst r = sid) (rows c)"
  by (induction ss arbitrary: c lg) auto

lemma add_loop_first:
  "sid \<notin> fst ` set (rows c) \<Longrightarrow> find (\<lambda>s. SessionId s = sid) ss = Some s \<Longrightarrow>
     filter (\<lambda>r. fst r = sid) (rows (fst (add_loop ss (c, lg)))) = [(sid, Username s, LogonTime s)]"
proof (induction ss arbitrary: c lg)
  case Nil
  then show ?case by simp
next
  case (Cons a ss)
  show ?case
  proof (cases "SessionId a = sid")
    case True
    with Cons.prems have as: "a = s" by simp
    let ?c = "\<lparr>rows = rows c @ [(SessionId a, Username a, LogonTime a)], in_transaction = True\<rparr>"
    let ?lg = "lg @ [NewSessionAdded (Username a) (SessionId a) (LogonTime a)]"
    have none: "filter (\<lambda>r. fst r = sid) (rows c) = []"
      using Cons.prems(1) by (auto simp: filter_empty_conv)
    have "sid \<in> fst ` set (rows ?c)" using True by simp
    from add_loop_stored [OF this, of ss ?lg]
    have "filter (\<lambda>r. fst r = sid) (rows (fst (add_loop ss (?c, ?lg))))
            = [(sid, Username s, LogonTime s)]"
      using none True as by simp
    moreover have "add_loop (a # ss) (c, lg) = add_loop ss (?c, ?lg)"
      using Cons.prems(1) True by simp
    ultimately show ?thesis by simp
  next
    case False
    with Cons show ?thesis by auto
  qed
qed

lemma add_loop_absent:
  "sid \<notin> SessionId ` set ss \<Longrightarrow>
     filter (\<lambda>r. fst r = sid) (rows (fst (add_loop ss (c, lg)))) = filter (\<lambda>r. fst r = sid) (rows c)"
  by (induction ss arbitrary: c lg) auto

lemma add_loop_log: "filter (closed_for sid) (snd (add_loop ss (c, lg))) = filter (closed_for sid) lg"
  by (induction ss arbitrary: c lg) auto

lemma update_loop_log:
  "filter (closed_for sid) (snd (update_loop b cs (f, lg))) = filter (closed_for sid) lg"
  by (induction cs arbitrary: f lg) (auto simp: update_user_time_def)

lemma check_completed_sessions_raise:
  assumes "completed_loop (map SessionId obs) now (ActiveSessions f)
             (\<lparr>rows = ActiveSessions f, in_transaction = False\<rparr>, [], []) = (Some e, st)"
  shows "check_completed_sessions obs now f = (Some e, f, snd (snd st))"
  using assms by (cases st) (simp add: check_completed_sessions_def)

lemma check_completed_sessions_return:
  assumes "completed_loop (map SessionId obs) now (ActiveSessions f)
             (\<lparr>rows = ActiveSessions f, in_transaction = False\<rparr>, [], []) = (None, (conn, done, lg))"
  shows "check_completed_sessions obs now f =
           (None,
            (fst (update_loop (in_transaction conn) done (f, lg)))
              \<lparr>ActiveSessions :=
                 rows (fst (add_loop obs (conn, snd (update_loop (in_transaction conn) done (f, lg)))))\<rparr>,
            snd (add_loop obs (conn, snd (update_loop (in_transaction conn) done (f, lg)))))"
  using assms by (simp add: check_completed_sessions_def split: prod.splits)

lemma update_loop_in_cycle:
  assumes "completed_loop ids now rs (\<lparr>rows = rs0, in_transaction = False\<rparr>, [], []) = (None, (conn, done, lg))"
  shows "fst (update_loop (in_transaction conn) done (f, lg')) = f"
proof (cases "in_transaction conn")
  case True
  then show ?thesis by (simp add: update_loop_locked)
next
  case False
  with completed_loop_flag [OF assms] have "filter (\<lambda>r. fst r \<notin> set ids) rs = []"
    by (auto simp: filter_empty_conv)
  with completed_loop_done [OF assms] show ?thesis by simp
qed

lemma completed_loop_cases:
  obtains (raise) conn "done" lg where
      "completed_loop (map SessionId obs) now (ActiveSessions f)
         (\<lparr>rows = ActiveSessions f, in_transaction = False\<rparr>, [], []) = (Some ValueError, (conn, done, lg))"
      "check_completed_sessions obs now f = (Some ValueError, f, lg)"
  | (return) conn "done" lg where
      "completed_loop (map SessionId obs) now (ActiveSessions f)
         (\<lparr>rows = ActiveSessions f, in_transaction = False\<rparr>, [], []) = (None, (conn, done, lg))"
      "check_completed_sessions obs now f =
           (None,
            f\<lparr>ActiveSessions := rows (fst (add_loop obs (conn, snd (update_loop (in_transaction conn) done (f, lg)))))\<rparr>,
            snd (add_loop obs (conn, snd (update_loop (in_transaction conn) done (f, lg)))))"
proof -
  obtain e conn "done" lg where cl: "completed_loop (map SessionId obs) now (ActiveSessions f)
             (\<lparr>rows = ActiveSessions f, in_transaction = False\<rparr>, [], []) = (e, (conn, done, lg))"
    by (metis prod_cases3)
  show thesis
  proof (cases e)
    case None
    with cl have "check_completed_sessions obs now f =
           (None,
            f\<lparr>ActiveSessions := rows (fst (add_loop obs (conn, snd (update_loop (in_transaction conn) done (f, lg)))))\<rparr>,
            snd (add_loop obs (conn, snd (update_loop (in_transaction conn) done (f, lg)))))"
      by (simp add: check_completed_sessions_return update_loop_in_cycle)
    with cl None show thesis by (auto intro: return)
  next
    case (Some x)
    then have "e = Some ValueError" by (cases x) simp
    with cl show thesis
      by (auto intro!: raise simp: check_completed_sessions_raise)
  qed
qed

lemma check_completed_sessions_Users:
  "Users (fst (snd (check_completed_sessions obs now f))) = Users f"
  by (cases obs now f rule: completed_loop_cases) simp_all

lemma check_completed_sessions_error:
  assumes "check_completed_sessions obs now f = (Some e, f', lg)"
  shows "e = ValueError \<and> f' = f"
  using assms by (cases obs now f rule: completed_loop_cases) simp_all

lemma add_loop_rows_indep:
  "rows c = rows c' \<Longrightarrow> rows (fst (add_loop ss (c, lg))) = rows (fst (add_loop ss (c', lg')))"
proof (induction ss arbitrary: c c' lg lg')
  case Nil
  then show ?case by simp
next
  case (Cons a ss)
  show ?case
  proof (cases "SessionId a \<in> fst ` set (rows c)")
    case True
    with Cons show ?thesis by simp
  next
    case False
    with Cons.prems show ?thesis
      by (auto intro!: Cons.IH)
  qed
qed

lemma check_completed_sessions_rows:
  assumes "check_completed_sessions obs now f = (None, f', lg)"
  shows "ActiveSessions f' = rows (fst (add_loop obs (kept obs (ActiveSessions f), [])))"
proof (cases obs now f rule: completed_loop_cases)
  case (raise conn "done" lg)
  with assms show ?thesis by simp
next
  case (return conn "done" lg0)
  from completed_loop_rows [OF return(1)]
  have "rows conn = rows (kept obs (ActiveSessions f))"
    by (auto intro!: filter_cong simp: kept_def)
  from add_loop_rows_indep [OF this]
  have "rows (fst (add_loop obs (conn, snd (update_loop (in_transaction conn) done (f, lg0)))))
          = rows (fst (add_loop obs (kept obs (ActiveSessions f), [])))" .
  with assms return(2) show ?thesis by auto
qed

lemma check_completed_sessions_log:
  assumes "check_completed_sessions obs now f = (None, f', lg)"
  shows "filter (closed_for sid) lg =
           map (\<lambda>r. SessionCompleted (fst (snd r)) (fst r)
                          (session_duration now (the (strptime (snd (snd r))))))
             (filter (\<lambda>r. fst r = sid \<and> fst r \<notin> SessionId ` set obs) (ActiveSessions f))"
proof (cases obs now f rule: completed_loop_cases)
  case (raise conn "done" lg)
  with assms show ?thesis by simp
next
  case (return conn "done" lg0)
  with assms have "filter (closed_for sid) lg = filter (closed_for sid) lg0"
    by (auto simp: add_loop_log update_loop_log)
  also from completed_loop_log [OF return(1)]
  have "filter (closed_for sid) lg0 = filter (closed_for sid) (map (\<lambda>r. SessionCompleted (fst (snd r)) (fst r)
                          (session_duration now (the (strptime (snd (snd r))))))
                      (filter (\<lambda>r. fst r \<notin> set (map SessionId obs)) (ActiveSessions f)))"
    by simp
  also have "\<dots> = map (\<lambda>r. SessionCompleted (fst (snd r)) (fst r)
                          (session_duration now (the (strptime (snd (snd r))))))
             (filter (\<lambda>r. fst r = sid \<and> fst r \<notin> SessionId ` set obs) (ActiveSessions f))"
    by (simp add: filter_map o_def conj_commute)
  finally show ?thesis .
qed

lemma completed_loop_all_present:
  "\<forall>r\<in>set rs. fst r \<in> set ids \<Longrightarrow> completed_loop ids now rs st = (None, st)"
  by (induction ids now rs st rule: completed_loop.induct) auto

lemma check_completed_sessions_stable:
  assumes "fst ` set (ActiveSessions f) = SessionId ` set obs"
  shows "check_completed_sessions obs now f = (None, f, [])"
proof -
  have "completed_loop (map SessionId obs) now (ActiveSessions f)
             (\<lparr>rows = ActiveSessions f, in_transaction = False\<rparr>, [], [])
          = (None, (\<lparr>rows = ActiveSessions f, in_transaction = False\<rparr>, [], []))"
    using assms by (intro completed_loop_all_present) auto
  moreover have "add_loop obs (\<lparr>rows = ActiveSessions f, in_transaction = False\<rparr>, [])
          = (\<lparr>rows = ActiveSessions f, in_transaction = False\<rparr>, [])"
    using assms by (intro add_loop_present) auto
  ultimately show ?thesis
    by (simp add: check_completed_sessions_def)
qed

lemma check_completed_sessions_raises_iff:
  "fst (check_completed_sessions obs now f) = None \<longleftrightarrow>
     (\<forall>r\<in>set (ActiveSessions f). fst r \<notin> SessionId ` set obs \<longrightarrow> strptime (snd (snd r)) \<noteq> None)"
  using completed_loop_raises [of "map SessionId obs" now "ActiveSessions f"
           "(\<lparr>rows = ActiveSessions f, in_transaction = False\<rparr>, [], [])"]
  by (cases obs now f rule: completed_loop_cases) simp_all

section \<open>One call and the polling loop\<close>






lemma parse_line_not_admin: "parse_line l = Some s \<Longrightarrow> Username s \<noteq> ''admin''"
  by (auto simp: parse_line_def Let_def split: if_splits)

lemma get_active_sessions_not_admin:
  "s \<in> set (get_active_sessions r) \<Longrightarrow> Username s \<noteq> ''admin''"
  by (auto simp: get_active_sessions_def List.map_filter_def Let_def
        split: run_result.splits if_splits dest: parse_line_not_admin)

lemma all_active_sessions_not_admin:
  "s \<in> set (all_active_sessions fetch) \<Longrightarrow> Username s \<noteq> ''admin''"
  by (auto simp: all_active_sessions_def dest: get_active_sessions_not_admin)

lemma check_completed_sessions_new_rows:
  assumes "check_completed_sessions obs now f = (e, f', lg)"
  shows "set (ActiveSessions f')
           \<subseteq> set (ActiveSessions f) \<union> (\<lambda>s. (SessionId s, Username s, LogonTime s)) ` set obs"
proof (cases e)
  case None
  with assms have "ActiveSessions f' = rows (fst (add_loop obs (kept obs (ActiveSessions f), [])))"
    by (simp add: check_completed_sessions_rows)
  with add_loop_rows_subset [of obs "kept obs (ActiveSessions f)" "[]"] show ?thesis
    by (auto simp: kept_def)
next
  case (Some a)
  with assms check_completed_sessions_error show ?thesis by blast
qed

lemma main_loop_Users:
  "main_loop inputs (f, lg) = (e, f', lg') \<Longrightarrow> Users f' = Users f"
proof (induction inputs arbitrary: f lg)
  case Nil
  then show ?case by simp
next
  case (Cons i inputs)
  obtain e1 f1 evs where c: "cycle i f = (e1, f1, evs)" by (metis prod_cases3)
  then have u: "Users f1 = Users f"
    using check_completed_sessions_Users [of "all_active_sessions (fst i)" "snd i" f]
    by (simp add: cycle_def)
  show ?case
  proof (cases e1)
    case None
    with Cons.prems c have "main_loop inputs (f1, lg @ evs) = (e, f', lg')" by simp
    from Cons.IH [OF this] u show ?thesis by simp
  next
    case (Some a)
    with Cons.prems c u show ?thesis by auto
  qed
qed

lemma main_loop_admin_rows:
  "main_loop inputs (f, lg) = (e, f', lg') \<Longrightarrow> r \<in> set (ActiveSessions f') \<Longrightarrow>
     fst (snd r) = ''admin'' \<Longrightarrow> r \<in> set (ActiveSessions f)"
proof (induction inputs arbitrary: f lg)
  case Nil
  then show ?case by simp
next
  case (Cons i inputs)
  obtain e1 f1 evs where c: "cycle i f = (e1, f1, evs)" by (metis prod_cases3)
  have step: "r \<in> set (ActiveSessions f)" if "r \<in> set (ActiveSessions f1)"
  proof -
    from c have "check_completed_sessions (all_active_sessions (fst i)) (snd i) f = (e1, f1, evs)"
      by (simp add: cycle_def)
    from check_completed_sessions_new_rows [OF this] that
    consider "r \<in> set (ActiveSessions f)"
      | s where "s \<in> set (all_active_sessions (fst i))" "r = (SessionId s, Username s, LogonTime s)"
      by auto
    then show ?thesis
    proof cases
      case 1
      then show ?thesis .
    next
      case 2
      with Cons.prems(3) all_active_sessions_not_admin [OF 2(1)] show ?thesis by simp
    qed
  qed
  show ?case
  proof (cases e1)
    case None
    with Cons.prems c have "main_loop inputs (f1, lg @ evs) = (e, f', lg')" by simp
    from Cons.IH [OF this Cons.prems(2,3)] step show ?thesis by simp
  next
    case (Some a)
    with Cons.prems c step show ?thesis by auto
  qed
qed

lemma get_active_sessions_failed:
  "r = TimeoutExpired \<or> r = OtherException \<or> (\<exists>rc out err. r = CompletedProcess rc out err \<and> rc \<noteq> 0)
     \<Longrightarrow> get_active_sessions r = []"
  by (auto simp: get_active_sessions_def)

lemma completed_loop_log_present:
  "sid \<in> set ids \<Longrightarrow>
     filter (closed_for sid) (snd (snd (snd (completed_loop ids now rs (c, done, lg)))))
       = filter (closed_for sid) lg"
proof (induction rs arbitrary: c "done" lg)
  case Nil
  then show ?case by simp
next
  case (Cons r rs)
  obtain s u l where r: "r = (s, u, l)" by (cases r) auto
  show ?case
  proof (cases "s \<in> set ids")
    case True
    with Cons r show ?thesis by simp
  next
    case False
    with Cons.prems have "s \<noteq> sid" by auto
    with Cons r False show ?thesis
      by (cases "strptime l") (simp_all add: Let_def)
  qed
qed

lemma filter_id_kept:
  "sid \<in> SessionId ` set obs \<Longrightarrow>
     filter (\<lambda>r. fst r = sid) (rows (kept obs rs)) = filter (\<lambda>r. fst r = sid) rs"
  by (auto simp: kept_def intro!: filter_cong)

lemma filter_id_dropped:
  "sid \<notin> SessionId ` set obs \<Longrightarrow> filter (\<lambda>r. fst r = sid) (rows (kept obs rs)) = []"
  by (auto simp: kept_def filter_empty_conv)

lemma filter_id_nonempty: "sid \<in> fst ` set rs \<longleftrightarrow> filter (\<lambda>r. fst r = sid) rs \<noteq> []"
  by (auto simp: filter_empty_conv)

lemma observed_session_kept:
  assumes "sid \<in> fst ` set (ActiveSessions f)"
      and "sid \<in> SessionId ` set obs"
      and "check_completed_sessions obs now f = (e, f', lg)"
  shows "filter (\<lambda>r. fst r = sid) (ActiveSessions f') = filter (\<lambda>r. fst r = sid) (ActiveSessions f)"
    and "filter (closed_for sid) lg = []"
proof -
  show "filter (\<lambda>r. fst r = sid) (ActiveSessions f') = filter (\<lambda>r. fst r = sid) (ActiveSessions f)"
  proof (cases e)
    case None
    have "sid \<in> fst ` set (rows (kept obs (ActiveSessions f)))"
      using assms(1,2) by (simp add: filter_id_nonempty filter_id_kept)
    from add_loop_stored [OF this, of obs "[]"] assms(2,3) None show ?thesis
      by (simp add: check_completed_sessions_rows filter_id_kept)
  next
    case (Some a)
    with assms(3) check_completed_sessions_error show ?thesis by blast
  qed
  show "filter (closed_for sid) lg = []"
  proof (cases obs now f rule: completed_loop_cases)
    case (raise conn "done" lg0)
    with assms(3) have "lg = snd (snd (snd (completed_loop (map SessionId obs) now (ActiveSessions f)
         (\<lparr>rows = ActiveSessions f, in_transaction = False\<rparr>, [], []))))"
      by simp
    with assms(2) show ?thesis by (simp add: completed_loop_log_present)
  next
    case (return conn "done" lg0)
    with assms(3) have "e = None" by simp
    with assms(2,3) show ?thesis
      by (simp add: check_completed_sessions_log filter_empty_conv)
  qed
qed

lemma first_observed_session:
  assumes "sid \<notin> fst ` set (ActiveSessions f)"
      and "find (\<lambda>s. SessionId s = sid) obs = Some s"
      and "check_completed_sessions obs now f = (None, f', lg)"
  shows "filter (\<lambda>r. fst r = sid) (ActiveSessions f') = [(sid, Username s, LogonTime s)]"
    and "filter (closed_for sid) lg = []"
proof -
  have "sid \<notin> fst ` set (rows (kept obs (ActiveSessions f)))"
    using assms(1) by (auto simp: kept_def)
  from add_loop_first [OF this assms(2), of "[]"] assms(3)
  show "filter (\<lambda>r. fst r = sid) (ActiveSessions f') = [(sid, Username s, LogonTime s)]"
    by (simp add: check_completed_sessions_rows)
  from assms(1) have "filter (\<lambda>r. fst r = sid) (ActiveSessions f) = []"
    by (simp add: filter_id_nonempty)
  then have "filter (\<lambda>r. fst r = sid \<and> fst r \<notin> SessionId ` set obs) (ActiveSessions f) = []"
    by (auto simp: filter_empty_conv)
  with assms(3) show "filter (closed_for sid) lg = []"
    by (simp add: check_completed_sessions_log)
qed

lemma absent_session_closed:
  assumes "filter (\<lambda>r. fst r = sid) (ActiveSessions f) = [(sid, u, l)]"
      and "sid \<notin> SessionId ` set obs"
      and "check_completed_sessions obs now f = (None, f', lg)"
  shows "\<exists>t. strptime l = Some t
            \<and> filter (closed_for sid) lg = [SessionCompleted u sid (session_duration now t)]"
    and "sid \<notin> fst ` set (ActiveSessions f')"
proof -
  have "(sid, u, l) \<in> set (filter (\<lambda>r. fst r = sid) (ActiveSessions f))"
    unfolding assms(1) by simp
  then have mem: "(sid, u, l) \<in> set (ActiveSessions f)" by simp
  from assms(3) have "fst (check_completed_sessions obs now f) = None" by simp
  then have "\<forall>r\<in>set (ActiveSessions f). fst r \<notin> SessionId ` set obs \<longrightarrow> strptime (snd (snd r)) \<noteq> None"
    by (simp only: check_completed_sessions_raises_iff)
  from bspec [OF this mem] assms(2) obtain t where t: "strptime l = Some t" by auto
  have "filter (\<lambda>r. fst r = sid \<and> fst r \<notin> SessionId ` set obs) (ActiveSessions f)
          = filter (\<lambda>r. fst r = sid) (ActiveSessions f)"
    using assms(2) by (auto intro!: filter_cong)
  with assms(1,3) t
  have "filter (closed_for sid) lg = [SessionCompleted u sid (session_duration now t)]"
    by (simp add: check_completed_sessions_log)
  with t show "\<exists>t. strptime l = Some t
            \<and> filter (closed_for sid) lg = [SessionCompleted u sid (session_duration now t)]"
    by simp
  from add_loop_absent [OF assms(2), of "kept obs (ActiveSessions f)" "[]"] assms(2,3)
  show "sid \<notin> fst ` set (ActiveSessions f')"
    by (simp add: check_completed_sessions_rows filter_id_dropped filter_id_nonempty)
qed

lemma main_loop_observed:
  assumes "\<forall>i\<in>set inputs. sid \<in> SessionId ` set (all_active_sessions (fst i))"
      and "sid \<in> fst ` set (ActiveSessions f)"
      and "main_loop inputs (f, lg) = (None, f', lg')"
  shows "filter (\<lambda>r. fst r = sid) (ActiveSessions f') = filter (\<lambda>r. fst r = sid) (ActiveSessions f)
       \<and> filter (closed_for sid) lg' = filter (closed_for sid) lg"
  using assms
proof (induction inputs arbitrary: f lg)
  case Nil
  then show ?case by simp
next
  case (Cons i inputs)
  obtain e1 f1 evs where c: "cycle i f = (e1, f1, evs)" by (metis prod_cases3)
  with Cons.prems(3) have e1: "e1 = None" by (cases e1) auto
  from c have ccs: "check_completed_sessions (all_active_sessions (fst i)) (snd i) f = (e1, f1, evs)"
    by (simp add: cycle_def)
  from Cons.prems(1) have obs: "sid \<in> SessionId ` set (all_active_sessions (fst i))" by simp
  note keep = observed_session_kept [OF Cons.prems(2) obs ccs]
  from keep(1) Cons.prems(2) have in1: "sid \<in> fst ` set (ActiveSessions f1)"
    by (simp add: filter_id_nonempty)
  from Cons.prems(3) c e1 have "main_loop inputs (f1, lg @ evs) = (None, f', lg')" by simp
  from Cons.IH [OF _ in1 this] Cons.prems(1) keep show ?case by simp
qed

section \<open>Evaluation of the example runs\<close>

lemmas text_simps = strip_def splitlines_def split_def parse_line_def isdigit_def is_digit_def
  isspace_def is_linebreak_def get_active_sessions_def List.map_filter_def Let_def
  quser_line_def listing_def

lemmas time_simps = strptime_def day_field_def field_def year_field_def digits_value_def is_digit_def
  isspace_def days_in_month_def is_leap_def session_duration_def to_microseconds_def toordinal_def
  days_before_year_def days_before_month_def round_half_even_def Let_def clock_def

lemmas run_simps = cycle_def check_completed_sessions_def update_user_time_def empty_db_def

lemma get_no_users: "get_active_sessions no_users = []"
  by (simp add: get_active_sessions_def no_users_def)

lemma get_timeout: "get_active_sessions TimeoutExpired = []"
  by (simp add: get_active_sessions_def)

lemma all_hosts:
  "all_active_sessions (hosts r1 r2 r3)
     = get_active_sessions r1 @ get_active_sessions r2 @ get_active_sessions r3"
  by (simp add: all_active_sessions_def SERVERS_def hosts_def)

lemma get_alice:
  "get_active_sessions (listing [quser_line ''alice'' ''5'' ''01.01.2025 09:00'']) =
     [\<lparr>Username = ''alice'', SessionId = ''5'', State = ''Active'', LogonTime = ''01.01.2025 09:00''\<rparr>]"
  by (simp add: text_simps)

lemma get_alice_us:
  "get_active_sessions (listing [quser_line ''alice'' ''5'' ''1/1/2025 9:00 AM'']) =
     [\<lparr>Username = ''alice'', SessionId = ''5'', State = ''Active'', LogonTime = ''9:00 AM''\<rparr>]"
  by (simp add: text_simps)

lemma get_bob:
  "get_active_sessions (listing [quser_line ''bob'' ''3'' ''01.01.2025 08:00'']) =
     [\<lparr>Username = ''bob'', SessionId = ''3'', State = ''Active'', LogonTime = ''01.01.2025 08:00''\<rparr>]"
  by (simp add: text_simps)

lemma get_carol:
  "get_active_sessions (listing [quser_line ''carol'' ''3'' ''01.01.2025 08:30'']) =
     [\<lparr>Username = ''carol'', SessionId = ''3'', State = ''Active'', LogonTime = ''01.01.2025 08:30''\<rparr>]"
  by (simp add: text_simps)

lemma get_dave:
  "get_active_sessions (listing [quser_line ''dave'' ''9'' ''01.01.2025 09:00'']) =
     [\<lparr>Username = ''dave'', SessionId = ''9'', State = ''Active'', LogonTime = ''01.01.2025 09:00''\<rparr>]"
  by (simp add: text_simps)

lemma get_admin_erin:
  "get_active_sessions (listing [quser_line ''admin'' ''2'' ''01.01.2025 07:00'',
                                 quser_line ''erin'' ''4'' ''01.01.2025 07:30'']) =
     [\<lparr>Username = ''erin'', SessionId = ''4'', State = ''Active'', LogonTime = ''01.01.2025 07:30''\<rparr>]"
  by (simp add: text_simps)

lemmas get_simps = all_hosts get_no_users get_timeout get_alice get_alice_us get_bob get_carol
  get_dave get_admin_erin

section \<open>The claims\<close>

subsection \<open>C1: a server whose query fails\<close>

text \<open>
  Claim C1 says that the stored sessions of a server whose query fails are left as they
  are. The program keeps no record of which server reported a session and does not
  tell a failed query from an empty answer, so the statement that holds is this one.

  Claim C1, as amended. In a cycle in which the query of a server times out, raises or
  ends with an exit code other than 0, that server adds no session to the merged
  snapshot; and when the cycle raises no exception, a stored row is still stored after
  the cycle exactly when its session id is in the merged snapshot of that cycle.
\<close>

theorem failed_fetch_is_empty_snapshot:
  assumes "fetch server = TimeoutExpired \<or> fetch server = OtherException
             \<or> (\<exists>rc out err. fetch server = CompletedProcess rc out err \<and> rc \<noteq> 0)"
      and "cycle (fetch, now) f = (None, f', lg)"
      and "r \<in> set (ActiveSessions f)"
  shows "get_active_sessions (fetch server) = []
       \<and> (r \<in> set (ActiveSessions f') \<longleftrightarrow> fst r \<in> SessionId ` set (all_active_sessions fetch))"
proof -
  let ?obs = "all_active_sessions fetch"
  from assms(2) have rows: "ActiveSessions f' = rows (fst (add_loop ?obs (kept ?obs (ActiveSessions f), [])))"
    by (simp add: cycle_def check_completed_sessions_rows)
  from add_loop_append [of ?obs "kept ?obs (ActiveSessions f)" "[]"] obtain news where
    news: "ActiveSessions f' = rows (kept ?obs (ActiveSessions f)) @ news"
      "set news \<subseteq> (\<lambda>s. (SessionId s, Username s, LogonTime s)) ` set ?obs"
    unfolding rows by blast
  have "r \<in> set (ActiveSessions f') \<longleftrightarrow> fst r \<in> SessionId ` set ?obs"
    using news assms(3) by (auto simp: kept_def)
  with get_active_sessions_failed [OF assms(1)] show ?thesis by simp
qed

text \<open>
  The amended statement at a timeout of server1, for the stored session of alice: the
  row is gone after the cycle.
\<close>

theorem failed_fetch_is_empty_snapshot_witness:
  "hosts TimeoutExpired no_users no_users ''server1'' = TimeoutExpired
   \<and> cycle (hosts TimeoutExpired no_users no_users, clock 9 2) db_alice
       = (None, empty_db, [SessionCompleted ''alice'' ''5'' 2, UpdateFailed ''alice''])
   \<and> get_active_sessions (hosts TimeoutExpired no_users no_users ''server1'') = []
   \<and> (''5'', ''alice'', ''01.01.2025 09:00'') \<notin> set (ActiveSessions empty_db)"
proof -
  have h1: "hosts TimeoutExpired no_users no_users ''server1'' = TimeoutExpired"
    by (simp add: hosts_def)
  have h2: "cycle (hosts TimeoutExpired no_users no_users, clock 9 2) db_alice
       = (None, empty_db, [SessionCompleted ''alice'' ''5'' 2, UpdateFailed ''alice''])"
    by (simp add: get_simps run_simps time_simps db_alice_def)
  have h3: "(''5'', ''alice'', ''01.01.2025 09:00'') \<in> set (ActiveSessions db_alice)"
    by (simp add: db_alice_def)
  from failed_fetch_is_empty_snapshot [OF disjI1 [OF h1] h2 h3] h1 h2 show ?thesis
    by (simp add: get_simps)
qed

text \<open>
  Against claim C1 as stated. Server1 reports session 5 of alice in the first cycle and
  times out in the second one: the row of the session is deleted by the second cycle
  and a duration of 2 minutes is closed out for it.
\<close>

theorem failed_fetch_closes_session:
  "main_loop [(hosts (listing [quser_line ''alice'' ''5'' ''01.01.2025 09:00'']) no_users no_users, clock 9 1)]
      (empty_db, [])
     = (None, \<lparr>Users = Map.empty, ActiveSessions = [(''5'', ''alice'', ''01.01.2025 09:00'')]\<rparr>,
        [NewSessionAdded ''alice'' ''5'' ''01.01.2025 09:00''])
   \<and> hosts TimeoutExpired no_users no_users ''server1'' = TimeoutExpired
   \<and> ActiveSessions (fst (snd (main_loop
        [(hosts (listing [quser_line ''alice'' ''5'' ''01.01.2025 09:00'']) no_users no_users, clock 9 1),
         (hosts TimeoutExpired no_users no_users, clock 9 2)]
        (empty_db, [])))) = []
   \<and> filter (closed_for ''5'') (snd (snd (main_loop
        [(hosts (listing [quser_line ''alice'' ''5'' ''01.01.2025 09:00'']) no_users no_users, clock 9 1),
         (hosts TimeoutExpired no_users no_users, clock 9 2)]
        (empty_db, [])))) = [SessionCompleted ''alice'' ''5'' 2]"
  by (simp add: get_simps run_simps time_simps) (simp add: hosts_def)

subsection \<open>C2: transactions\<close>




subsection \<open>C3: a stored logon time that does not parse\<close>

text \<open>
  Claim C3 says that the polling loop goes on after a stored logon time failed to
  parse. \<open>check_completed_sessions\<close> catches \<open>sqlite3.Error\<close> only, so the
  \<open>ValueError\<close> of \<open>strptime\<close> reaches the handler of \<open>main\<close>, which is outside the
  loop.

  Claim C3, as amended. When a stored row whose session id is not in the snapshot has a
  logon time that does not parse, the cycle raises \<open>ValueError\<close>, the database is left
  as it was before the cycle (the row stays), \<open>main\<close> logs the error, and the polling
  loop ends: no later cycle runs.
\<close>

theorem unparsable_logon_time_ends_main:
  assumes "(sid, u, l) \<in> set (ActiveSessions f)"
      and "sid \<notin> SessionId ` set (all_active_sessions (fst i))"
      and "strptime l = None"
  shows "\<exists>evs. main_loop (i # rest) (f, lg) = (Some ValueError, f, lg @ evs @ [ErrorOccurred])"
proof -
  have "fst (check_completed_sessions (all_active_sessions (fst i)) (snd i) f) \<noteq> None"
  proof
    assume "fst (check_completed_sessions (all_active_sessions (fst i)) (snd i) f) = None"
    then have "\<forall>r\<in>set (ActiveSessions f).
        fst r \<notin> SessionId ` set (all_active_sessions (fst i)) \<longrightarrow> strptime (snd (snd r)) \<noteq> None"
      by (simp only: check_completed_sessions_raises_iff)
    from bspec [OF this assms(1)] assms(2,3) show False by simp
  qed
  then obtain a f1 evs where
    "check_completed_sessions (all_active_sessions (fst i)) (snd i) f = (Some a, f1, evs)"
    by (metis fst_conv not_Some_eq prod_cases3)
  with check_completed_sessions_error [OF this]
  have "cycle i f = (Some ValueError, f, evs)" by (simp add: cycle_def)
  then show ?thesis by simp
qed

text \<open>The amended statement for a stored logon time \<open>9:00 AM\<close>.\<close>

theorem unparsable_logon_time_ends_main_witness:
  "strptime ''9:00 AM'' = None
   \<and> (\<exists>evs. main_loop
         [(hosts no_users no_users no_users, clock 9 2),
          (hosts (listing [quser_line ''dave'' ''9'' ''01.01.2025 09:00'']) no_users no_users, clock 9 3)]
         (\<lparr>Users = Map.empty, ActiveSessions = [(''5'', ''alice'', ''9:00 AM'')]\<rparr>, [])
       = (Some ValueError, \<lparr>Users = Map.empty, ActiveSessions = [(''5'', ''alice'', ''9:00 AM'')]\<rparr>,
          [] @ evs @ [ErrorOccurred]))"
proof -
  have h3: "strptime ''9:00 AM'' = None" by (simp add: strptime_def)
  have h1: "(''5'', ''alice'', ''9:00 AM'')
      \<in> set (ActiveSessions \<lparr>Users = Map.empty, ActiveSessions = [(''5'', ''alice'', ''9:00 AM'')]\<rparr>)"
    by simp
  have h2: "''5'' \<notin> SessionId ` set (all_active_sessions (fst (hosts no_users no_users no_users, clock 9 2)))"
    by (simp add: get_simps)
  from unparsable_logon_time_ends_main [OF h1 h2 h3] h3 show ?thesis by blast
qed

text \<open>
  Against claim C3 as stated. A server prints its logon times as \<open>1/1/2025 9:00 AM\<close>;
  the last two words are stored as the logon time of session 5. When the session is
  gone in the second cycle the loop ends with \<open>ValueError\<close>, and the session of dave
  in the third cycle is never seen.
\<close>

theorem unparsable_logon_time_stops_polling:
  "main_loop
     [(hosts (listing [quser_line ''alice'' ''5'' ''1/1/2025 9:00 AM'']) no_users no_users, clock 9 1),
      (hosts no_users no_users no_users, clock 9 2),
      (hosts (listing [quser_line ''dave'' ''9'' ''01.01.2025 09:00'']) no_users no_users, clock 9 3)]
     (empty_db, [])
   = (Some ValueError, \<lparr>Users = Map.empty, ActiveSessions = [(''5'', ''alice'', ''9:00 AM'')]\<rparr>,
      [NewSessionAdded ''alice'' ''5'' ''9:00 AM'', ErrorOccurred])"
  by (simp add: get_simps run_simps time_simps)

subsection \<open>C4: totals never decrease\<close>

text \<open>
  Claim C4. Whatever the cycles of a run are, whatever logon times are stored and
  whatever the clock shows, the total of a user after the run is not less than before
  it, and when no total was negative before the run none is after it.
\<close>

theorem totals_never_decrease:
  assumes "main_loop inputs (f, lg) = (e, f', lg')"
  shows "(\<forall>t. Users f u = Some t \<longrightarrow> (\<exists>t'. Users f' u = Some t' \<and> t \<le> t'))
       \<and> ((\<forall>v t. Users f v = Some t \<longrightarrow> 0 \<le> t) \<longrightarrow> (\<forall>v t. Users f' v = Some t \<longrightarrow> 0 \<le> t))"
  using main_loop_Users [OF assms] by simp

text \<open>
  Claim C4 at a stored logon time that is later than the clock of the close-out: the
  duration is -13 minutes, the total of alice stays 10.
\<close>

theorem totals_never_decrease_witness:
  "main_loop [(hosts no_users no_users no_users, clock 9 47)]
      (\<lparr>Users = [''alice'' \<mapsto> 10], ActiveSessions = [(''5'', ''alice'', ''01.01.2025 10:00'')]\<rparr>, [])
     = (None, \<lparr>Users = [''alice'' \<mapsto> 10], ActiveSessions = []\<rparr>,
        [SessionCompleted ''alice'' ''5'' (- 13), UpdateFailed ''alice''])
   \<and> (\<exists>t'. Users \<lparr>Users = [''alice'' \<mapsto> 10], ActiveSessions = []\<rparr> ''alice'' = Some t' \<and> (10::int) \<le> t')"
proof -
  have run: "main_loop [(hosts no_users no_users no_users, clock 9 47)]
      (\<lparr>Users = [''alice'' \<mapsto> 10], ActiveSessions = [(''5'', ''alice'', ''01.01.2025 10:00'')]\<rparr>, [])
     = (None, \<lparr>Users = [''alice'' \<mapsto> 10], ActiveSessions = []\<rparr>,
        [SessionCompleted ''alice'' ''5'' (- 13), UpdateFailed ''alice''])"
    by (simp add: get_simps run_simps time_simps)
  from totals_never_decrease [OF run, of "''alice''"] run show ?thesis by simp
qed

subsection \<open>C5: a session is closed out once\<close>

text \<open>
  Claim C5 says that the duration of a session is added once and is the time between
  its first and its last observation. The duration that the program closes out is
  counted from the logon time that the server reported to the clock of the cycle in
  which the session is absent.

  Claim C5, as amended. Let a session id that is not stored be observed in a first
  cycle and in every one of the cycles that follow it, and be absent in the cycle after
  them, no cycle raising an exception. Then after the cycles of presence exactly one
  row with that id is stored, with the username and the logon time of the first
  observation, and no close-out of that id has been logged; the cycle of absence logs
  exactly one close-out of that id, for that username, with the duration from that
  logon time to the clock of that cycle, rounded to minutes; and the row is deleted.
\<close>

theorem session_closed_out_once:
  assumes "sid \<notin> fst ` set (ActiveSessions f)"
      and "find (\<lambda>s. SessionId s = sid) (all_active_sessions (fst i1)) = Some s"
      and "\<forall>i\<in>set mids. sid \<in> SessionId ` set (all_active_sessions (fst i))"
      and "sid \<notin> SessionId ` set (all_active_sessions (fst ilast))"
      and "main_loop (i1 # mids) (f, []) = (None, f1, lg1)"
      and "cycle ilast f1 = (None, f2, lg2)"
  shows "filter (\<lambda>r. fst r = sid) (ActiveSessions f1) = [(sid, Username s, LogonTime s)]
       \<and> filter (closed_for sid) lg1 = []
       \<and> (\<exists>t. strptime (LogonTime s) = Some t
             \<and> filter (closed_for sid) lg2
                 = [SessionCompleted (Username s) sid (session_duration (snd ilast) t)])
       \<and> sid \<notin> fst ` set (ActiveSessions f2)"
proof -
  obtain e0 f0 evs where c: "cycle i1 f = (e0, f0, evs)" by (metis prod_cases3)
  with assms(5) have e0: "e0 = None" by (cases e0) auto
  from c e0 have ccs: "check_completed_sessions (all_active_sessions (fst i1)) (snd i1) f = (None, f0, evs)"
    by (simp add: cycle_def)
  note first = first_observed_session [OF assms(1,2) ccs]
  from first(1) have in0: "sid \<in> fst ` set (ActiveSessions f0)"
    by (simp add: filter_id_nonempty)
  from assms(5) c e0 have "main_loop mids (f0, evs) = (None, f1, lg1)" by simp
  from main_loop_observed [OF assms(3) in0 this] first
  have one: "filter (\<lambda>r. fst r = sid) (ActiveSessions f1) = [(sid, Username s, LogonTime s)]"
    and log1: "filter (closed_for sid) lg1 = []"
    by simp_all
  from assms(6) have "check_completed_sessions (all_active_sessions (fst ilast)) (snd ilast) f1 = (None, f2, lg2)"
    by (simp add: cycle_def)
  from absent_session_closed [OF one assms(4) this] one log1 show ?thesis by simp
qed

text \<open>
  The amended statement for session 9 of dave, logged on at 09:00, observed at 12:00
  and 12:10, absent at 12:11.
\<close>

theorem session_closed_out_once_witness:
  "main_loop
     [(hosts (listing [quser_line ''dave'' ''9'' ''01.01.2025 09:00'']) no_users no_users, clock 12 0),
      (hosts (listing [quser_line ''dave'' ''9'' ''01.01.2025 09:00'']) no_users no_users, clock 12 10)]
     (empty_db, [])
    = (None, \<lparr>Users = Map.empty, ActiveSessions = [(''9'', ''dave'', ''01.01.2025 09:00'')]\<rparr>,
       [NewSessionAdded ''dave'' ''9'' ''01.01.2025 09:00''])
   \<and> cycle (hosts no_users no_users no_users, clock 12 11)
         \<lparr>Users = Map.empty, ActiveSessions = [(''9'', ''dave'', ''01.01.2025 09:00'')]\<rparr>
       = (None, empty_db, [SessionCompleted ''dave'' ''9'' 191, UpdateFailed ''dave''])
   \<and> (\<exists>t. strptime ''01.01.2025 09:00'' = Some t
         \<and> filter (closed_for ''9'') [SessionCompleted ''dave'' ''9'' 191, UpdateFailed ''dave'']
             = [SessionCompleted ''dave'' ''9'' (session_duration (clock 12 11) t)])"
proof -
  let ?dave = "\<lparr>Username = ''dave'', SessionId = ''9'', State = ''Active'', LogonTime = ''01.01.2025 09:00''\<rparr>"
  let ?i1 = "(hosts (listing [quser_line ''dave'' ''9'' ''01.01.2025 09:00'']) no_users no_users, clock 12 0)"
  let ?i2 = "(hosts (listing [quser_line ''dave'' ''9'' ''01.01.2025 09:00'']) no_users no_users, clock 12 10)"
  let ?i3 = "(hosts no_users no_users no_users, clock 12 11)"
  let ?f1 = "\<lparr>Users = Map.empty, ActiveSessions = [(''9'', ''dave'', ''01.01.2025 09:00'')]\<rparr>"
  have h1: "''9'' \<notin> fst ` set (ActiveSessions empty_db)"
    by (simp add: empty_db_def)
  have h2: "find (\<lambda>s. SessionId s = ''9'') (all_active_sessions (fst ?i1)) = Some ?dave"
    by (simp add: get_simps)
  have h3: "\<forall>i\<in>set [?i2]. ''9'' \<in> SessionId ` set (all_active_sessions (fst i))"
    by (simp add: get_simps)
  have h4: "''9'' \<notin> SessionId ` set (all_active_sessions (fst ?i3))"
    by (simp add: get_simps)
  have h5: "main_loop (?i1 # [?i2]) (empty_db, [])
      = (None, ?f1, [NewSessionAdded ''dave'' ''9'' ''01.01.2025 09:00''])"
    by (simp add: get_simps run_simps time_simps)
  have h6: "cycle ?i3 ?f1 = (None, empty_db, [SessionCompleted ''dave'' ''9'' 191, UpdateFailed ''dave''])"
    by (simp add: get_simps run_simps time_simps)
  from session_closed_out_once [OF h1 h2 h3 h4 h5 h6] h5 h6 show ?thesis
    by simp
qed

text \<open>
  Against claim C5 as stated. In that run the close-out of session 9 has a duration of
  191 minutes; the first and the last observation are 10 minutes apart.
\<close>

theorem closeout_uses_logon_time:
  "fst (main_loop
     [(hosts (listing [quser_line ''dave'' ''9'' ''01.01.2025 09:00'']) no_users no_users, clock 12 0),
      (hosts (listing [quser_line ''dave'' ''9'' ''01.01.2025 09:00'']) no_users no_users, clock 12 10),
      (hosts no_users no_users no_users, clock 12 11)]
     (empty_db, [])) = None
   \<and> filter (closed_for ''9'') (snd (snd (main_loop
     [(hosts (listing [quser_line ''dave'' ''9'' ''01.01.2025 09:00'']) no_users no_users, clock 12 0),
      (hosts (listing [quser_line ''dave'' ''9'' ''01.01.2025 09:00'']) no_users no_users, clock 12 10),
      (hosts no_users no_users no_users, clock 12 11)]
     (empty_db, [])))) = [SessionCompleted ''dave'' ''9'' 191]
   \<and> session_duration (clock 12 10) (clock 12 0) = 10"
  by (simp add: get_simps run_simps time_simps)

subsection \<open>C6: idempotence\<close>

text \<open>
  Claim C6. Reconciling the same observed sessions a second time, right after the first
  time, leaves the database as the first run left it: the rows of \<open>ActiveSessions\<close>
  and the totals of \<open>Users\<close> are the same, whatever the clock shows at the two runs.
\<close>

theorem reconcile_idempotent:
  "fst (snd (check_completed_sessions obs now2 (fst (snd (check_completed_sessions obs now1 f)))))
     = fst (snd (check_completed_sessions obs now1 f))"
proof -
  obtain e f1 lg1 where one: "check_completed_sessions obs now1 f = (e, f1, lg1)"
    by (metis prod_cases3)
  show ?thesis
  proof (cases e)
    case (Some a)
    with one have f1: "f1 = f"
      using check_completed_sessions_error by blast
    from one Some have "fst (check_completed_sessions obs now1 f) \<noteq> None" by simp
    then have "fst (check_completed_sessions obs now2 f) \<noteq> None"
      by (simp add: check_completed_sessions_raises_iff)
    then obtain a2 f2 lg2 where "check_completed_sessions obs now2 f = (Some a2, f2, lg2)"
      by (metis fst_conv not_Some_eq prod_cases3)
    then have "fst (snd (check_completed_sessions obs now2 f)) = f"
      using check_completed_sessions_error by fastforce
    with one f1 show ?thesis by simp
  next
    case None
    have "fst ` set (ActiveSessions f1) = SessionId ` set obs"
      unfolding check_completed_sessions_rows [OF one [unfolded None]] add_loop_ids
      by (auto simp: kept_def)
    from check_completed_sessions_stable [OF this] one show ?thesis by simp
  qed
qed

subsection \<open>C7: the duration of a closed session\<close>

text \<open>
  Claim C7 says that the session of alice with logon time 01.01.2025 09:00 that is
  gone at 09:47 adds 47 minutes to the total of alice. The run of that scenario: the
  duration is computed as 47 and logged, the row is deleted, and the table \<open>Users\<close>
  is as before, because \<open>update_user_time\<close> writes through a second connection while
  the connection of \<open>check_completed_sessions\<close> holds the write lock since its
  \<open>DELETE\<close>; the error is caught and logged.
\<close>

theorem scenario_total_not_updated:
  "main_loop
     [(hosts (listing [quser_line ''alice'' ''5'' ''01.01.2025 09:00'']) no_users no_users, clock 9 1),
      (hosts (listing [quser_line ''alice'' ''5'' ''01.01.2025 09:00'']) no_users no_users, clock 9 10),
      (hosts (listing [quser_line ''alice'' ''5'' ''01.01.2025 09:00'']) no_users no_users, clock 9 20),
      (hosts (listing [quser_line ''alice'' ''5'' ''01.01.2025 09:00'']) no_users no_users, clock 9 30),
      (hosts (listing [quser_line ''alice'' ''5'' ''01.01.2025 09:00'']) no_users no_users, clock 9 40),
      (hosts no_users no_users no_users, clock 9 47)]
     (empty_db, [])
   = (None, \<lparr>Users = Map.empty, ActiveSessions = []\<rparr>,
      [NewSessionAdded ''alice'' ''5'' ''01.01.2025 09:00'',
       SessionCompleted ''alice'' ''5'' 47, UpdateFailed ''alice''])"
  by (simp add: get_simps run_simps time_simps)

subsection \<open>C8: the ignored user\<close>

text \<open>
  Claim C8. Whatever the servers report in the cycles of a run, every row of
  \<open>ActiveSessions\<close> with the username admin after the run was there before the run,
  the total of admin is the same after the run as before it, and \<open>update_user_time\<close>
  for admin changes nothing, in whatever state the database is.
\<close>

theorem ignored_user_excluded:
  assumes "main_loop inputs (f, lg) = (e, f', lg')"
  shows "(\<forall>r \<in> set (ActiveSessions f'). fst (snd r) = ''admin'' \<longrightarrow> r \<in> set (ActiveSessions f))
       \<and> Users f' ''admin'' = Users f ''admin''
       \<and> (\<forall>locked d g. update_user_time locked ''admin'' d g = (g, []))"
  using main_loop_admin_rows [OF assms] main_loop_Users [OF assms]
  by (auto simp: update_user_time_def)

text \<open>Claim C8 at a server that lists a session of admin and a session of erin.\<close>

theorem ignored_user_excluded_witness:
  "main_loop
     [(hosts (listing [quser_line ''admin'' ''2'' ''01.01.2025 07:00'',
                       quser_line ''erin'' ''4'' ''01.01.2025 07:30'']) no_users no_users, clock 9 1)]
     (empty_db, [])
    = (None, \<lparr>Users = Map.empty, ActiveSessions = [(''4'', ''erin'', ''01.01.2025 07:30'')]\<rparr>,
       [NewSessionAdded ''erin'' ''4'' ''01.01.2025 07:30''])
   \<and> Users \<lparr>Users = Map.empty, ActiveSessions = [(''4'', ''erin'', ''01.01.2025 07:30'')]\<rparr> ''admin''
       = Users empty_db ''admin''
   \<and> update_user_time False ''admin'' 5 empty_db = (empty_db, [])"
proof -
  have run: "main_loop
     [(hosts (listing [quser_line ''admin'' ''2'' ''01.01.2025 07:00'',
                       quser_line ''erin'' ''4'' ''01.01.2025 07:30'']) no_users no_users, clock 9 1)]
     (empty_db, [])
    = (None, \<lparr>Users = Map.empty, ActiveSessions = [(''4'', ''erin'', ''01.01.2025 07:30'')]\<rparr>,
       [NewSessionAdded ''erin'' ''4'' ''01.01.2025 07:30''])"
    by (simp add: get_simps run_simps time_simps)
  from ignored_user_excluded [OF run] run show ?thesis by simp
qed

subsection \<open>C9: one session id on two servers\<close>

text \<open>
  Claim C9 says that two sessions with the same id on two servers are tracked apart.
  The key of \<open>ActiveSessions\<close> is the session id alone and a row does not name a
  server.

  Claim C9, as amended. When the merged snapshot of a cycle has one or more sessions
  with a session id that is not stored, and the cycle raises no exception, then after
  the cycle exactly one row with that id is stored, with the username and the logon
  time of the first of these sessions in the order of the server list; any other
  session with that id has no row of its own.
\<close>

theorem one_record_per_session_id:
  assumes "sid \<notin> fst ` set (ActiveSessions f)"
      and "find (\<lambda>s. SessionId s = sid) (all_active_sessions fetch) = Some s"
      and "cycle (fetch, now) f = (None, f', lg)"
  shows "filter (\<lambda>r. fst r = sid) (ActiveSessions f') = [(sid, Username s, LogonTime s)]"
  using first_observed_session(1) [OF assms(1,2)] assms(3) by (simp add: cycle_def)

text \<open>
  The amended statement for session 3 of bob on server1 and session 3 of carol on
  server2.
\<close>

theorem one_record_per_session_id_witness:
  "find (\<lambda>s. SessionId s = ''3'')
     (all_active_sessions (hosts (listing [quser_line ''bob'' ''3'' ''01.01.2025 08:00''])
             (listing [quser_line ''carol'' ''3'' ''01.01.2025 08:30'']) no_users))
     = Some \<lparr>Username = ''bob'', SessionId = ''3'', State = ''Active'', LogonTime = ''01.01.2025 08:00''\<rparr>
   \<and> filter (\<lambda>r. fst r = ''3'')
        (ActiveSessions (fst (snd (cycle
           (hosts (listing [quser_line ''bob'' ''3'' ''01.01.2025 08:00''])
                  (listing [quser_line ''carol'' ''3'' ''01.01.2025 08:30'']) no_users, clock 9 0)
           empty_db))))
       = [(''3'', ''bob'', ''01.01.2025 08:00'')]"
proof -
  let ?fetch = "hosts (listing [quser_line ''bob'' ''3'' ''01.01.2025 08:00''])
             (listing [quser_line ''carol'' ''3'' ''01.01.2025 08:30'']) no_users"
  let ?bob = "\<lparr>Username = ''bob'', SessionId = ''3'', State = ''Active'', LogonTime = ''01.01.2025 08:00''\<rparr>"
  have h1: "''3'' \<notin> fst ` set (ActiveSessions empty_db)"
    by (simp add: empty_db_def)
  have h2: "find (\<lambda>s. SessionId s = ''3'') (all_active_sessions ?fetch) = Some ?bob"
    by (simp add: get_simps)
  have h3: "cycle (?fetch, clock 9 0) empty_db
      = (None, \<lparr>Users = Map.empty, ActiveSessions = [(''3'', ''bob'', ''01.01.2025 08:00'')]\<rparr>,
         [NewSessionAdded ''bob'' ''3'' ''01.01.2025 08:00''])"
    by (simp add: get_simps run_simps time_simps)
  from one_record_per_session_id [OF h1 h2 h3] h2 h3 show ?thesis by simp
qed

text \<open>
  Against claim C9 as stated. After the cycle in which server1 reports session 3 of
  bob and server2 reports session 3 of carol there is the row of bob only. Bob logs
  off before 09:30 and carol before 10:00: nothing is closed out at 09:30, and at
  10:00 the session of bob is closed out with 120 minutes; no session of carol is
  ever stored or closed out.
\<close>

theorem same_session_id_one_record:
  "main_loop
     [(hosts (listing [quser_line ''bob'' ''3'' ''01.01.2025 08:00''])
             (listing [quser_line ''carol'' ''3'' ''01.01.2025 08:30'']) no_users, clock 9 0)]
     (empty_db, [])
    = (None, \<lparr>Users = Map.empty, ActiveSessions = [(''3'', ''bob'', ''01.01.2025 08:00'')]\<rparr>,
       [NewSessionAdded ''bob'' ''3'' ''01.01.2025 08:00''])
   \<and> main_loop
     [(hosts (listing [quser_line ''bob'' ''3'' ''01.01.2025 08:00''])
             (listing [quser_line ''carol'' ''3'' ''01.01.2025 08:30'']) no_users, clock 9 0),
      (hosts no_users (listing [quser_line ''carol'' ''3'' ''01.01.2025 08:30'']) no_users, clock 9 30),
      (hosts no_users no_users no_users, clock 10 0)]
     (empty_db, [])
    = (None, \<lparr>Users = Map.empty, ActiveSessions = []\<rparr>,
       [NewSessionAdded ''bob'' ''3'' ''01.01.2025 08:00'',
        SessionCompleted ''bob'' ''3'' 120, UpdateFailed ''bob''])"
  by (simp add: get_simps run_simps time_simps)

subsection \<open>C10: a session id that is stored already\<close>



end
